theory Spec2Isabelle
  imports Main "HOL-Library.Word"
begin

unbundle bit_operations_syntax

section \<open>minidb: an in-memory key/value store with per-key reservations\<close>

text \<open>
  The model follows \<^verbatim>\<open>src/minidb/main.go\<close>. Every request is served by its own goroutine;
  a goroutine is a program counter (the source line it is about to execute) together with
  its local variables, and one step of a goroutine executes one source statement on the
  shared memory of the process. Statements that only touch local variables are executed
  together with the branch that leads to them.
\<close>

subsection \<open>sync.RWMutex\<close>

text \<open>
  The state of a \<^verbatim>\<open>sync.RWMutex\<close>: whether a writer holds it and how many readers do.
  Go mutexes have no owner: any goroutine may unlock a locked mutex, and unlocking an
  unlocked one is a fatal runtime error that ends the process.  The preference the runtime
  gives to a pending writer over new readers is not modelled.
\<close>

record RWMutex =
  w :: bool
  readerCount :: nat

definition unlocked :: RWMutex where
  "unlocked = \<lparr>w = False, readerCount = 0\<rparr>"

definition Lock_blocks :: "RWMutex \<Rightarrow> bool" where
  "Lock_blocks m = (w m \<or> 0 < readerCount m)"

definition Lock :: "RWMutex \<Rightarrow> RWMutex" where
  "Lock m = m\<lparr>w := True\<rparr>"

definition Unlock :: "RWMutex \<Rightarrow> string + RWMutex" where
  "Unlock m = (if w m then Inr (m\<lparr>w := False\<rparr>)
               else Inl ''sync: Unlock of unlocked RWMutex'')"

definition RLock_blocks :: "RWMutex \<Rightarrow> bool" where
  "RLock_blocks m = w m"

definition RLock :: "RWMutex \<Rightarrow> RWMutex" where
  "RLock m = m\<lparr>readerCount := Suc (readerCount m)\<rparr>"

definition RUnlock :: "RWMutex \<Rightarrow> string + RWMutex" where
  "RUnlock m = (if 0 < readerCount m then Inr (m\<lparr>readerCount := readerCount m - 1\<rparr>)
                else Inl ''sync: RUnlock of unlocked RWMutex'')"

subsection \<open>Entry, Cache and the process\<close>

type_synonym addr = nat

text \<open>
  \<^verbatim>\<open>type Entry struct { sync.RWMutex; cond *sync.Cond; value string; lockID string }\<close>.
  The embedded mutex is the field \<open>elock\<close>. The condition variable is \<open>None\<close> while the
  pointer is nil and otherwise the list of goroutines waiting on it. The field \<open>val\<close> is
  the source's \<^verbatim>\<open>value\<close>.
\<close>

record Entry =
  elock :: RWMutex
  cond :: "nat list option"
  val :: string
  lockID :: string

text \<open>The zero value that \<^verbatim>\<open>new(Entry)\<close> returns.\<close>

definition new_Entry :: Entry where
  "new_Entry = \<lparr>elock = unlocked, cond = None, val = [], lockID = []\<rparr>"

text \<open>
  \<^verbatim>\<open>type Cache struct { sync.RWMutex; storage map[string]*Entry }\<close>: the map holds
  pointers, so the entries live in the heap of the process and the map holds addresses.
\<close>

record Cache =
  clock :: RWMutex
  storage :: "string \<rightharpoonup> addr"

text \<open>
  The process: the server's cache, the heap of entries (\<open>nalloc\<close> of them allocated), the
  global \<^verbatim>\<open>Random\<close> file (\<open>None\<close> is nil, \<open>Some n\<close> is open with \<open>n\<close> reads done), the device
  \<^verbatim>\<open>/dev/urandom\<close> of the environment (whether it can be opened, and the bytes each read
  of it returns), and the message of the fatal error with which the process has exited,
  if it has.
\<close>

record process =
  cache :: Cache
  heap :: "addr \<Rightarrow> Entry"
  nalloc :: nat
  Random :: "nat option"
  urandom_opens :: bool
  urandom :: "nat \<Rightarrow> 8 word list"
  exited :: "string option"

text \<open>\<^verbatim>\<open>NewServer\<close>: an empty cache.\<close>

definition NewServer :: "bool \<Rightarrow> (nat \<Rightarrow> 8 word list) \<Rightarrow> process" where
  "NewServer opens dev = \<lparr>cache = \<lparr>clock = unlocked, storage = Map.empty\<rparr>,
     heap = (\<lambda>_. new_Entry), nalloc = 0, Random = None, urandom_opens = opens,
     urandom = dev, exited = None\<rparr>"

subsection \<open>uuid\<close>

definition hexdigit :: "nat \<Rightarrow> char" where
  "hexdigit n = ''0123456789abcdef'' ! n"

definition hex_byte :: "8 word \<Rightarrow> string" where
  "hex_byte b = [hexdigit (unat b div 16), hexdigit (unat b mod 16)]"

text \<open>\<^verbatim>\<open>%x\<close> on a byte slice: two lower-case hexadecimal digits per byte.\<close>

definition hex :: "8 word list \<Rightarrow> string" where
  "hex bs = concat (map hex_byte bs)"

text \<open>
  \<^verbatim>\<open>b := make([]byte, 16); Random.Read(b)\<close>: the slice starts zeroed and the count and the
  error of the read are ignored, so a short read leaves zeros behind.
\<close>

definition read16 :: "8 word list \<Rightarrow> 8 word list" where
  "read16 bs = take 16 (bs @ replicate 16 0)"

definition format_uuid :: "8 word list \<Rightarrow> string" where
  "format_uuid b0 =
     (let b1 = b0[6 := (b0 ! 6 AND 0x0f) OR 0x40];
          b = b1[8 := (b1 ! 8 AND 0x3f) OR 0x80]
      in hex (take 4 b) @ ''-'' @ hex (take 2 (drop 4 b)) @ ''-'' @ hex (take 2 (drop 6 b))
         @ ''-'' @ hex (take 2 (drop 8 b)) @ ''-'' @ hex (drop 10 b))"

text \<open>
  The position of the open file: how many reads of \<^verbatim>\<open>/dev/urandom\<close> the process has made.
\<close>

definition next_read :: "process \<Rightarrow> nat" where
  "next_read p = (case Random p of None \<Rightarrow> 0 | Some n \<Rightarrow> n)"

text \<open>
  \<^verbatim>\<open>uuid()\<close>: opens \<^verbatim>\<open>/dev/urandom\<close> on first use (\<^verbatim>\<open>log.Fatal\<close> when that fails, which
  ends the process), reads 16 bytes and formats them.
\<close>

definition uuid :: "process \<Rightarrow> string + string \<times> process" where
  "uuid p =
     (if Random p = None \<and> \<not> urandom_opens p then Inl ''open /dev/urandom''
      else Inr (format_uuid (read16 (urandom p (next_read p))),
                p\<lparr>Random := Some (Suc (next_read p))\<rparr>))"

subsection \<open>Requests and responses\<close>

text \<open>
  What a handler reads of a request: the route variables, the values of the query
  parameter \<^verbatim>\<open>release\<close> (\<open>None\<close> when the parameter is absent), and what
  \<^verbatim>\<open>ioutil.ReadAll(req.Body)\<close> returns (\<open>Inl\<close> the error).
\<close>

record request =
  Vars_key :: string
  Vars_lock_id :: string
  Query_release :: "string list option"
  ReadAll_Body :: "string + string"

text \<open>\<^verbatim>\<open>type Response struct { LockID string; Value string }\<close>\<close>

record Response =
  LockID :: string
  Value :: string

text \<open>
  The body written to the client: the JSON object \<^verbatim>\<open>{"error": msg}\<close> of \<^verbatim>\<open>sendError\<close>,
  or the bytes \<^verbatim>\<open>json.Marshal\<close> produces for a \<^verbatim>\<open>Response\<close>, kept as the structure that was
  marshalled.
\<close>

datatype payload = NoBody | ErrorJson string | Json Response

record response =
  status :: nat
  body :: payload

text \<open>\<^verbatim>\<open>json.Marshal\<close> of a struct of two strings; it has no failing case.\<close>

definition json_Marshal :: "Response \<Rightarrow> string + payload" where
  "json_Marshal r = Inr (Json r)"

definition StatusOK :: nat where "StatusOK = 200"
definition StatusNoContent :: nat where "StatusNoContent = 204"
definition StatusBadRequest :: nat where "StatusBadRequest = 400"
definition StatusUnauthorized :: nat where "StatusUnauthorized = 401"
definition StatusNotFound :: nat where "StatusNotFound = 404"
definition StatusInternalServerError :: nat where "StatusInternalServerError = 500"

subsection \<open>Goroutines\<close>

text \<open>
  The program points, named by source line. \<^verbatim>\<open>cond.Wait()\<close> is three points: it enqueues
  the caller and unlocks the mutex, sleeps until a broadcast, and locks the mutex again.
  \<open>Done\<close> is a handler that has returned, \<open>Panicked\<close> one that dereferenced nil.
\<close>

datatype label =
    L83 | L84 | L85 | L92 | L97 | L98 | L99 | L99_sleep | L99_lock | L101 | L102 | L103 | L108
  | L114 | L117 | L121 | L131 | L132 | L133 | L135 | L139 | L144 | L146 | L147 | L148 | L151
  | L159 | L162 | L167 | L168 | L169 | L170 | L171 | L172 | L173 | L175 | L177 | L180
  | L181 | L181_sleep | L181_lock | L184 | L185 | L187 | L189 | L194
  | Done | Panicked

text \<open>
  A goroutine serving one request: its id, its program point, the request, the locals
  \<^verbatim>\<open>body\<close> (the field \<open>body_v\<close>), \<^verbatim>\<open>release\<close>, \<^verbatim>\<open>entry\<close>, \<^verbatim>\<open>ok\<close> and \<^verbatim>\<open>data\<close> of the handlers, the
  response written so far, and the program points it has executed. The locals \<^verbatim>\<open>key\<close> and
  \<^verbatim>\<open>lockID\<close> are the route variables of the request.
\<close>

record goroutine =
  gid :: nat
  pc :: label
  req :: request
  body_v :: string
  release :: "string list"
  entry :: "addr option"
  ok :: bool
  data :: payload
  res :: "response option"
  trace :: "label list"

datatype handler = handleReservation | handleUpdate | handleSet

fun entry_point :: "handler \<Rightarrow> label" where
  "entry_point handleReservation = L83"
| "entry_point handleUpdate = L114"
| "entry_point handleSet = L159"

definition go :: "nat \<Rightarrow> handler \<Rightarrow> request \<Rightarrow> goroutine" where
  "go i h r = \<lparr>gid = i, pc = entry_point h, req = r, body_v = [], release = [], entry = None,
     ok = False, data = NoBody, res = None, trace = []\<rparr>"

definition goto :: "label \<Rightarrow> goroutine \<Rightarrow> goroutine" where
  "goto l g = g\<lparr>pc := l\<rparr>"

text \<open>\<^verbatim>\<open>sendError(res, msg, code)\<close>\<close>

definition sendError :: "string \<Rightarrow> nat \<Rightarrow> goroutine \<Rightarrow> goroutine" where
  "sendError msg code g = g\<lparr>res := Some \<lparr>status = code, body = ErrorJson msg\<rparr>\<rparr>"

definition fatal :: "string \<Rightarrow> goroutine \<Rightarrow> process \<Rightarrow> goroutine \<times> process" where
  "fatal msg g p = (g, p\<lparr>exited := Some msg\<rparr>)"

text \<open>A statement that dereferences \<^verbatim>\<open>entry\<close> panics when the pointer is nil.\<close>

definition with_entry ::
  "goroutine \<Rightarrow> process \<Rightarrow> (addr \<Rightarrow> goroutine \<times> process) \<Rightarrow> goroutine \<times> process" where
  "with_entry g p f = (case entry g of None \<Rightarrow> (goto Panicked g, p) | Some a \<Rightarrow> f a)"

definition set_clock :: "RWMutex \<Rightarrow> process \<Rightarrow> process" where
  "set_clock m p = p\<lparr>cache := (cache p)\<lparr>clock := m\<rparr>\<rparr>"

definition set_entry :: "addr \<Rightarrow> Entry \<Rightarrow> process \<Rightarrow> process" where
  "set_entry a e p = p\<lparr>heap := (heap p)(a := e)\<rparr>"

text \<open>\<^verbatim>\<open>entry.Unlock()\<close>\<close>

definition entry_Unlock :: "label \<Rightarrow> goroutine \<Rightarrow> process \<Rightarrow> goroutine \<times> process" where
  "entry_Unlock l g p = with_entry g p (\<lambda>a.
     case Unlock (elock (heap p a)) of
       Inl msg \<Rightarrow> fatal msg g p
     | Inr m \<Rightarrow> (goto l g, set_entry a ((heap p a)\<lparr>elock := m\<rparr>) p))"

text \<open>\<^verbatim>\<open>entry.Lock()\<close>, executed once the mutex is free.\<close>

definition entry_Lock :: "label \<Rightarrow> goroutine \<Rightarrow> process \<Rightarrow> goroutine \<times> process" where
  "entry_Lock l g p = with_entry g p (\<lambda>a.
     (goto l g, set_entry a ((heap p a)\<lparr>elock := Lock (elock (heap p a))\<rparr>) p))"

text \<open>
  The first part of \<^verbatim>\<open>entry.cond.Wait()\<close>: join the waiters and unlock \<^verbatim>\<open>cond.L\<close>, which is
  the entry itself (\<^verbatim>\<open>sync.NewCond(entry)\<close>).
\<close>

definition cond_Wait :: "label \<Rightarrow> goroutine \<Rightarrow> process \<Rightarrow> goroutine \<times> process" where
  "cond_Wait l g p = with_entry g p (\<lambda>a.
     case cond (heap p a) of
       None \<Rightarrow> (goto Panicked g, p)
     | Some ws \<Rightarrow>
         (case Unlock (elock (heap p a)) of
            Inl msg \<Rightarrow> fatal msg g p
          | Inr m \<Rightarrow> (goto l g, set_entry a ((heap p a)\<lparr>cond := Some (ws @ [gid g]), elock := m\<rparr>) p)))"

text \<open>\<^verbatim>\<open>entry.lockID = uuid()\<close>\<close>

definition assign_uuid :: "label \<Rightarrow> goroutine \<Rightarrow> process \<Rightarrow> goroutine \<times> process" where
  "assign_uuid l g p = with_entry g p (\<lambda>a.
     case uuid p of
       Inl msg \<Rightarrow> fatal msg g p
     | Inr (u, p') \<Rightarrow> (goto l g, set_entry a ((heap p' a)\<lparr>lockID := u\<rparr>) p'))"

text \<open>\<^verbatim>\<open>self.cache.RUnlock()\<close>\<close>

definition cache_RUnlock :: "label \<Rightarrow> goroutine \<Rightarrow> process \<Rightarrow> goroutine \<times> process" where
  "cache_RUnlock l g p =
     (case RUnlock (clock (cache p)) of
        Inl msg \<Rightarrow> fatal msg g p
      | Inr m \<Rightarrow> (goto l g, set_clock m p))"

text \<open>\<^verbatim>\<open>self.cache.Unlock()\<close>\<close>

definition cache_Unlock :: "label \<Rightarrow> goroutine \<Rightarrow> process \<Rightarrow> goroutine \<times> process" where
  "cache_Unlock l g p =
     (case Unlock (clock (cache p)) of
        Inl msg \<Rightarrow> fatal msg g p
      | Inr m \<Rightarrow> (goto l g, set_clock m p))"

text \<open>\<^verbatim>\<open>entry, ok := self.cache.storage[key]\<close>\<close>

definition lookup :: "label \<Rightarrow> goroutine \<Rightarrow> process \<Rightarrow> goroutine \<times> process" where
  "lookup l g p =
     (g\<lparr>pc := l, entry := storage (cache p) (Vars_key (req g)),
        ok := (storage (cache p) (Vars_key (req g)) \<noteq> None)\<rparr>, p)"

text \<open>
  \<^verbatim>\<open>data, err := json.Marshal(r)\<close> with the check of \<^verbatim>\<open>err\<close> that follows it.
\<close>

definition marshal :: "label \<Rightarrow> Response \<Rightarrow> goroutine \<Rightarrow> goroutine" where
  "marshal l r g =
     (case json_Marshal r of
        Inl e \<Rightarrow> goto Done (sendError ''Unable to marshal the response'' StatusInternalServerError g)
      | Inr d \<Rightarrow> g\<lparr>pc := l, data := d\<rparr>)"

text \<open>\<^verbatim>\<open>res.Write(data)\<close> as the last statement of a handler.\<close>

definition Write_data :: "goroutine \<Rightarrow> goroutine" where
  "Write_data g = g\<lparr>pc := Done, res := Some \<lparr>status = StatusOK, body = data g\<rparr>\<rparr>"

subsection \<open>The statements of the three handlers\<close>

text \<open>
  One equation per program point. In \<^verbatim>\<open>handleReservation\<close>:
  \<^item> 83 \<^verbatim>\<open>self.cache.RLock()\<close>, 84 \<^verbatim>\<open>entry, ok := self.cache.storage[key]\<close>,
    85 \<^verbatim>\<open>self.cache.RUnlock()\<close>, 92 \<^verbatim>\<open>if !ok { sendError(404); return }\<close>;
  \<^item> 97 \<^verbatim>\<open>entry.Lock()\<close>, 98 \<^verbatim>\<open>for entry.lockID != ""\<close>, 99 \<^verbatim>\<open>entry.cond.Wait()\<close>,
    101 \<^verbatim>\<open>entry.lockID = uuid()\<close>, 102 \<^verbatim>\<open>entry.Unlock()\<close>;
  \<^item> 103 \<^verbatim>\<open>json.Marshal(Response{entry.lockID, entry.value})\<close>, 108 \<^verbatim>\<open>res.Write(data)\<close>.

  In \<^verbatim>\<open>handleUpdate\<close>:
  \<^item> 114 \<^verbatim>\<open>ioutil.ReadAll(req.Body)\<close> and, on an error, \<^verbatim>\<open>sendError(500)\<close>, then
    117 \<^verbatim>\<open>self.cache.Unlock(); return\<close>;
  \<^item> 121 \<^verbatim>\<open>release, ok := req.URL.Query()["release"]; if !ok { sendError(400); return }\<close>;
  \<^item> 131 \<^verbatim>\<open>self.cache.RLock()\<close>, 132 the lookup, 133 \<^verbatim>\<open>self.cache.RUnlock()\<close>,
    135 \<^verbatim>\<open>if !ok { sendError(404); return }\<close>;
  \<^item> 139 \<^verbatim>\<open>if entry.lockID != lockID { sendError(401); return }\<close>;
  \<^item> 144 \<^verbatim>\<open>entry.value = string(body)\<close>, 146 \<^verbatim>\<open>if len(release) > 0 && release[0] == "true"\<close>,
    147 \<^verbatim>\<open>entry.cond.Broadcast()\<close>, 148 \<^verbatim>\<open>entry.lockID = ""\<close>, 151 \<^verbatim>\<open>res.WriteHeader(204)\<close>.

  In \<^verbatim>\<open>handleSet\<close>:
  \<^item> 159 \<^verbatim>\<open>ioutil.ReadAll(req.Body)\<close> and, on an error, \<^verbatim>\<open>sendError(500)\<close>, then
    162 \<^verbatim>\<open>self.cache.Unlock(); return\<close>;
  \<^item> 167 \<^verbatim>\<open>self.cache.Lock()\<close>, 168 the lookup, 169 \<^verbatim>\<open>if !ok\<close>, 170 \<^verbatim>\<open>entry = new(Entry)\<close>,
    171 \<^verbatim>\<open>entry.lockID = uuid()\<close>, 172 \<^verbatim>\<open>entry.cond = sync.NewCond(entry)\<close>,
    173 \<^verbatim>\<open>self.cache.storage[key] = entry\<close>, 175 \<^verbatim>\<open>self.cache.Unlock()\<close>;
  \<^item> 177 \<^verbatim>\<open>entry.Lock()\<close>, 180 \<^verbatim>\<open>for ok && entry.lockID != ""\<close>, 181 \<^verbatim>\<open>entry.cond.Wait()\<close>,
    184 \<^verbatim>\<open>entry.lockID = uuid()\<close>, 185 \<^verbatim>\<open>entry.value = string(body)\<close>, 187 \<^verbatim>\<open>entry.Unlock()\<close>;
  \<^item> 189 \<^verbatim>\<open>json.Marshal(Response{entry.lockID, ""})\<close>, 194 \<^verbatim>\<open>res.Write(data)\<close>.
\<close>

fun stmt :: "label \<Rightarrow> goroutine \<Rightarrow> process \<Rightarrow> goroutine \<times> process" where
  \<comment> \<open>handleReservation\<close>
  "stmt L83 g p = (goto L84 g, set_clock (RLock (clock (cache p))) p)"
| "stmt L84 g p = lookup L85 g p"
| "stmt L85 g p = cache_RUnlock L92 g p"
| "stmt L92 g p =
     (if \<not> ok g
      then (goto Done (sendError ''Unable to claim lock on non-existent key'' StatusNotFound g), p)
      else (goto L97 g, p))"
| "stmt L97 g p = entry_Lock L98 g p"
| "stmt L98 g p = with_entry g p (\<lambda>a.
     if lockID (heap p a) \<noteq> [] then (goto L99 g, p) else (goto L101 g, p))"
| "stmt L99 g p = cond_Wait L99_sleep g p"
| "stmt L99_sleep g p = (goto L99_lock g, p)"
| "stmt L99_lock g p = entry_Lock L98 g p"
| "stmt L101 g p = assign_uuid L102 g p"
| "stmt L102 g p = entry_Unlock L103 g p"
| "stmt L103 g p = with_entry g p (\<lambda>a.
     (marshal L108 \<lparr>LockID = lockID (heap p a), Value = val (heap p a)\<rparr> g, p))"
| "stmt L108 g p = (Write_data g, p)"
  \<comment> \<open>handleUpdate\<close>
| "stmt L114 g p =
     (case ReadAll_Body (req g) of
        Inl err \<Rightarrow>
          (goto L117 (sendError ''Unable to read the body of the set request''
             StatusInternalServerError g), p)
      | Inr b \<Rightarrow> (g\<lparr>pc := L121, body_v := b\<rparr>, p))"
| "stmt L117 g p = cache_Unlock Done g p"
| "stmt L121 g p =
     (case Query_release (req g) of
        None \<Rightarrow>
          (goto Done (sendError ''release is a required query parameter [ true || false ]''
             StatusBadRequest g), p)
      | Some rs \<Rightarrow> (g\<lparr>pc := L131, release := rs\<rparr>, p))"
| "stmt L131 g p = (goto L132 g, set_clock (RLock (clock (cache p))) p)"
| "stmt L132 g p = lookup L133 g p"
| "stmt L133 g p = cache_RUnlock L135 g p"
| "stmt L135 g p =
     (if \<not> ok g
      then (goto Done (sendError ''This key hasn't been created'' StatusNotFound g), p)
      else (goto L139 g, p))"
| "stmt L139 g p = with_entry g p (\<lambda>a.
     if lockID (heap p a) \<noteq> Vars_lock_id (req g)
     then (goto Done (sendError ''Your lock id isn't consistent with the currently held lock''
             StatusUnauthorized g), p)
     else (goto L144 g, p))"
| "stmt L144 g p = with_entry g p (\<lambda>a.
     (goto L146 g, set_entry a ((heap p a)\<lparr>val := body_v g\<rparr>) p))"
| "stmt L146 g p =
     (if 0 < length (release g) \<and> release g ! 0 = ''true'' then (goto L147 g, p)
      else (goto L151 g, p))"
| "stmt L147 g p = with_entry g p (\<lambda>a.
     case cond (heap p a) of
       None \<Rightarrow> (goto Panicked g, p)
     | Some ws \<Rightarrow> (goto L148 g, set_entry a ((heap p a)\<lparr>cond := Some []\<rparr>) p))"
| "stmt L148 g p = with_entry g p (\<lambda>a.
     (goto L151 g, set_entry a ((heap p a)\<lparr>lockID := []\<rparr>) p))"
| "stmt L151 g p = (g\<lparr>pc := Done, res := Some \<lparr>status = StatusNoContent, body = NoBody\<rparr>\<rparr>, p)"
  \<comment> \<open>handleSet\<close>
| "stmt L159 g p =
     (case ReadAll_Body (req g) of
        Inl err \<Rightarrow>
          (goto L162 (sendError ''Unable to read the body of the set request''
             StatusInternalServerError g), p)
      | Inr b \<Rightarrow> (g\<lparr>pc := L167, body_v := b\<rparr>, p))"
| "stmt L162 g p = cache_Unlock Done g p"
| "stmt L167 g p = (goto L168 g, set_clock (Lock (clock (cache p))) p)"
| "stmt L168 g p = lookup L169 g p"
| "stmt L169 g p = (if \<not> ok g then (goto L170 g, p) else (goto L175 g, p))"
| "stmt L170 g p =
     (g\<lparr>pc := L171, entry := Some (nalloc p)\<rparr>,
      p\<lparr>heap := (heap p)(nalloc p := new_Entry), nalloc := Suc (nalloc p)\<rparr>)"
| "stmt L171 g p = assign_uuid L172 g p"
| "stmt L172 g p = with_entry g p (\<lambda>a.
     (goto L173 g, set_entry a ((heap p a)\<lparr>cond := Some []\<rparr>) p))"
| "stmt L173 g p = with_entry g p (\<lambda>a.
     (goto L175 g, p\<lparr>cache := (cache p)\<lparr>storage := (storage (cache p))(Vars_key (req g) \<mapsto> a)\<rparr>\<rparr>))"
| "stmt L175 g p = cache_Unlock L177 g p"
| "stmt L177 g p = entry_Lock L180 g p"
| "stmt L180 g p = with_entry g p (\<lambda>a.
     if ok g \<and> lockID (heap p a) \<noteq> [] then (goto L181 g, p) else (goto L184 g, p))"
| "stmt L181 g p = cond_Wait L181_sleep g p"
| "stmt L181_sleep g p = (goto L181_lock g, p)"
| "stmt L181_lock g p = entry_Lock L180 g p"
| "stmt L184 g p = assign_uuid L185 g p"
| "stmt L185 g p = with_entry g p (\<lambda>a.
     (goto L187 g, set_entry a ((heap p a)\<lparr>val := body_v g\<rparr>) p))"
| "stmt L187 g p = entry_Unlock L189 g p"
| "stmt L189 g p = with_entry g p (\<lambda>a.
     (marshal L194 \<lparr>LockID = lockID (heap p a), Value = []\<rparr> g, p))"
| "stmt L194 g p = (Write_data g, p)"
| "stmt Done g p = (g, p)"
| "stmt Panicked g p = (g, p)"

text \<open>
  A goroutine is blocked when its next statement is a \<^verbatim>\<open>Lock\<close> or \<^verbatim>\<open>RLock\<close> of a mutex
  that cannot be taken, or when it sleeps in \<^verbatim>\<open>cond.Wait()\<close> and has not been woken.
\<close>

definition entry_locked :: "goroutine \<Rightarrow> process \<Rightarrow> bool" where
  "entry_locked g p = (case entry g of None \<Rightarrow> False | Some a \<Rightarrow> Lock_blocks (elock (heap p a)))"

definition asleep :: "goroutine \<Rightarrow> process \<Rightarrow> bool" where
  "asleep g p =
     (case entry g of
        None \<Rightarrow> False
      | Some a \<Rightarrow> (case cond (heap p a) of None \<Rightarrow> False | Some ws \<Rightarrow> gid g \<in> set ws))"

fun blocked_at :: "label \<Rightarrow> goroutine \<Rightarrow> process \<Rightarrow> bool" where
  "blocked_at L83 g p = RLock_blocks (clock (cache p))"
| "blocked_at L131 g p = RLock_blocks (clock (cache p))"
| "blocked_at L167 g p = Lock_blocks (clock (cache p))"
| "blocked_at L97 g p = entry_locked g p"
| "blocked_at L99_lock g p = entry_locked g p"
| "blocked_at L177 g p = entry_locked g p"
| "blocked_at L181_lock g p = entry_locked g p"
| "blocked_at L99_sleep g p = asleep g p"
| "blocked_at L181_sleep g p = asleep g p"
| "blocked_at _ g p = False"

definition blocked :: "goroutine \<Rightarrow> process \<Rightarrow> bool" where
  "blocked g p = blocked_at (pc g) g p"

definition finished :: "goroutine \<Rightarrow> bool" where
  "finished g = (pc g = Done \<or> pc g = Panicked)"

text \<open>
  One step of a goroutine. Nothing runs once the process has exited; a finished or blocked
  goroutine does not move.
\<close>

definition exec :: "goroutine \<times> process \<Rightarrow> goroutine \<times> process" where
  "exec gp =
     (case gp of (g, p) \<Rightarrow>
        (case exited p of
           Some msg \<Rightarrow> (g, p)
         | None \<Rightarrow>
             if finished g \<or> blocked g p then (g, p)
             else (case stmt (pc g) g p of (g', p') \<Rightarrow> (g'\<lparr>trace := trace g @ [pc g]\<rparr>, p'))))"

text \<open>
  A handler that runs with no other goroutine scheduled in between: \<open>solo n\<close> takes \<open>n\<close>
  steps, and \<open>call\<close> serves a request with more steps than the longest path without a wait
  has.
\<close>

primrec solo :: "nat \<Rightarrow> goroutine \<times> process \<Rightarrow> goroutine \<times> process" where
  "solo 0 gp = gp"
| "solo (Suc n) gp = solo n (exec gp)"

definition call :: "handler \<Rightarrow> request \<Rightarrow> process \<Rightarrow> goroutine \<times> process" where
  "call h r p = solo 16 (go 0 h r, p)"

subsection \<open>The server: goroutines interleaved\<close>

text \<open>
  The server holds the process and the goroutines of the requests in flight. An event is
  the arrival of a request, for which \<^verbatim>\<open>http.Serve\<close> starts a goroutine, or one step of a
  goroutine chosen by the scheduler.
\<close>

record server =
  proc :: process
  goroutines :: "nat \<rightharpoonup> goroutine"

datatype event = Arrive nat handler request | Sched nat

fun step :: "event \<Rightarrow> server \<Rightarrow> server" where
  "step (Arrive i h r) s = s\<lparr>goroutines := (goroutines s)(i \<mapsto> go i h r)\<rparr>"
| "step (Sched i) s =
     (case goroutines s i of
        None \<Rightarrow> s
      | Some g \<Rightarrow>
          (case exec (g, proc s) of
             (g', p') \<Rightarrow> \<lparr>proc = p', goroutines = (goroutines s)(i \<mapsto> g')\<rparr>))"

fun run :: "event list \<Rightarrow> server \<Rightarrow> server" where
  "run [] s = s"
| "run (e # es) s = run es (step e s)"

subsection \<open>A concrete server\<close>

text \<open>
  A device whose \<open>n\<close>-th read returns sixteen bytes of value \<open>n\<close>, the tokens \<^verbatim>\<open>uuid\<close> makes
  of its first four reads, and the process after \<^verbatim>\<open>PUT /values/k\<close> with body \<^verbatim>\<open>a\<close> on a
  new server: the key \<^verbatim>\<open>k\<close> is locked under the second token.
\<close>

definition dev0 :: "nat \<Rightarrow> 8 word list" where
  "dev0 n = replicate 16 (of_nat n)"

definition token0 :: string where
  "token0 = ''00000000-0000-4000-8000-000000000000''"

definition tokenA :: string where
  "tokenA = ''01010101-0101-4101-8101-010101010101''"

definition tokenB :: string where
  "tokenB = ''02020202-0202-4202-8202-020202020202''"

definition tokenC :: string where
  "tokenC = ''03030303-0303-4303-8303-030303030303''"

definition P0 :: process where
  "P0 = NewServer True dev0"

definition P1 :: process where
  "P1 = \<lparr>cache = \<lparr>clock = unlocked, storage = [''k'' \<mapsto> 0]\<rparr>,
     heap = (\<lambda>_. new_Entry)(0 := \<lparr>elock = unlocked, cond = Some [], val = ''a'', lockID = tokenA\<rparr>),
     nalloc = 1, Random = Some 2, urandom_opens = True, urandom = dev0, exited = None\<rparr>"

definition put_k :: request where
  "put_k = \<lparr>Vars_key = ''k'', Vars_lock_id = [], Query_release = None,
     ReadAll_Body = Inr ''a''\<rparr>"

definition reserve_k :: request where
  "reserve_k = \<lparr>Vars_key = ''k'', Vars_lock_id = [], Query_release = None,
     ReadAll_Body = Inr []\<rparr>"

definition reserve_j :: request where
  "reserve_j = \<lparr>Vars_key = ''j'', Vars_lock_id = [], Query_release = None,
     ReadAll_Body = Inr []\<rparr>"

text \<open>\<^verbatim>\<open>POST /values/k/<token>?release=<values>\<close> with the given body.\<close>

definition post_k :: "string \<Rightarrow> string list option \<Rightarrow> string + string \<Rightarrow> request" where
  "post_k tok rel b = \<lparr>Vars_key = ''k'', Vars_lock_id = tok, Query_release = rel,
     ReadAll_Body = b\<rparr>"

text \<open>
  A schedule of four requests on a new server. The key is set and left locked under
  \<open>tokenA\<close>. Two updates presenting \<open>tokenA\<close> with \<^verbatim>\<open>release=true\<close> (bodies \<^verbatim>\<open>x\<close> and \<^verbatim>\<open>y\<close>) and
  a reservation arrive. Both updates run up to and including the token check of line 139;
  the first update then runs to its end, the reservation runs to its end, and
  (in \<open>race\<close>) the second update runs to its end. In \<open>race_reserved_twice\<close> a second
  reservation then arrives and runs to its end.
\<close>

definition boot :: server where
  "boot = \<lparr>proc = P0, goroutines = Map.empty\<rparr>"

definition race_prefix :: "event list" where
  "race_prefix =
     Arrive 0 handleSet put_k # replicate 16 (Sched 0)
     @ [Arrive 1 handleUpdate (post_k tokenA (Some [''true'']) (Inr ''x'')),
        Arrive 2 handleUpdate (post_k tokenA (Some [''true'']) (Inr ''y'')),
        Arrive 3 handleReservation reserve_k]
     @ replicate 7 (Sched 1) @ replicate 7 (Sched 2)
     @ replicate 5 (Sched 1) @ replicate 10 (Sched 3)"

definition race :: "event list" where
  "race = race_prefix @ replicate 5 (Sched 2)"

definition race_reserved_twice :: "event list" where
  "race_reserved_twice = race @ Arrive 4 handleReservation reserve_k # replicate 10 (Sched 4)"

text \<open>
  Two schedules in which a set meets a stale update. The key is set and left locked under
  \<open>tokenA\<close>; two updates presenting \<open>tokenA\<close> with \<^verbatim>\<open>release=true\<close> (bodies \<^verbatim>\<open>x\<close> and \<^verbatim>\<open>y\<close>) both
  run through the token check of line 139 and the first runs to its end. Then
  \<^verbatim>\<open>PUT /values/k\<close> with body \<^verbatim>\<open>b\<close> arrives. In \<open>set_race_late\<close> the set runs through line 189,
  the second update runs to its end, and the set writes its response. In
  \<open>set_race_early\<close> the set runs through line 187 only before the second update runs to its
  end, and then executes lines 189 and 194.
\<close>

definition put_kb :: request where
  "put_kb = \<lparr>Vars_key = ''k'', Vars_lock_id = [], Query_release = None,
     ReadAll_Body = Inr ''b''\<rparr>"

definition set_race_prefix :: "event list" where
  "set_race_prefix =
     Arrive 0 handleSet put_k # replicate 16 (Sched 0)
     @ [Arrive 1 handleUpdate (post_k tokenA (Some [''true'']) (Inr ''x'')),
        Arrive 2 handleUpdate (post_k tokenA (Some [''true'']) (Inr ''y''))]
     @ replicate 7 (Sched 1) @ replicate 7 (Sched 2) @ replicate 5 (Sched 1)
     @ [Arrive 3 handleSet put_kb]"

definition set_race_late :: "event list" where
  "set_race_late =
     set_race_prefix @ replicate 11 (Sched 3) @ replicate 5 (Sched 2) @ [Sched 3]"

definition set_race_early :: "event list" where
  "set_race_early =
     set_race_prefix @ replicate 10 (Sched 3) @ replicate 5 (Sched 2) @ replicate 2 (Sched 3)"

text \<open>
  A schedule with a waiter. The key is set and left locked under \<open>tokenA\<close>; a reservation
  arrives and goes to sleep in \<^verbatim>\<open>cond.Wait()\<close>; an update presenting \<open>tokenA\<close> with
  \<^verbatim>\<open>release=true\<close> and body \<^verbatim>\<open>x\<close> arrives and runs to its end (\<open>waiter_prefix\<close>). In
  \<open>waiter_race\<close> the woken reservation then runs to its end, and a second reservation
  arrives and is given sixteen steps.
\<close>

definition waiter_prefix :: "event list" where
  "waiter_prefix =
     Arrive 0 handleSet put_k # replicate 16 (Sched 0)
     @ Arrive 1 handleReservation reserve_k # replicate 7 (Sched 1)
     @ Arrive 2 handleUpdate (post_k tokenA (Some [''true'']) (Inr ''x''))
       # replicate 12 (Sched 2)"

definition waiter_race :: "event list" where
  "waiter_race =
     waiter_prefix @ replicate 7 (Sched 1)
     @ Arrive 3 handleReservation reserve_k # replicate 16 (Sched 3)"

text \<open>
  A server is idle when no request is in flight: every goroutine it has started has
  returned. The server \<open>quiet\<close> is idle, with the process \<open>P1\<close> and the goroutine of the
  first \<^verbatim>\<open>PUT\<close>; \<open>turns_update\<close> and \<open>turns_reserve\<close> are two orders in which the scheduler
  may pick goroutines 0, 1 and 2.
\<close>

definition idle :: "server \<Rightarrow> bool" where
  "idle s = (\<forall>j g. goroutines s j = Some g \<longrightarrow> finished g)"

definition quiet :: server where
  "quiet = \<lparr>proc = P1, goroutines = [0 \<mapsto> (go 0 handleSet put_k)\<lparr>pc := Done\<rparr>]\<rparr>"

definition turns_update :: "nat list" where
  "turns_update = [1, 0, 1, 1, 2, 1, 1, 1, 1, 0, 1, 1, 1, 1, 1, 2]"

definition turns_reserve :: "nat list" where
  "turns_reserve = [1, 2, 2, 0, 2, 2, 2, 1, 2, 2, 2, 2, 2, 0]"

section \<open>Properties\<close>

subsection \<open>Auxiliary facts\<close>

lemmas stmt_defs = goto_def sendError_def fatal_def with_entry_def set_clock_def set_entry_def
  entry_Unlock_def entry_Lock_def cond_Wait_def assign_uuid_def cache_RUnlock_def
  cache_Unlock_def lookup_def marshal_def Write_data_def json_Marshal_def
  Lock_def Unlock_def RLock_def RUnlock_def Lock_blocks_def RLock_blocks_def
  blocked_def finished_def entry_locked_def asleep_def

lemmas call_defs = call_def go_def exec_def eval_nat_numeral

lemma w_False_id: "\<not> w m \<Longrightarrow> m\<lparr>w := False\<rparr> = m"
  by (cases m) simp

lemma format_uuid_nonempty: "format_uuid b \<noteq> []"
  by (simp add: format_uuid_def Let_def)

text \<open>
  A handler run alone is one schedule of the server: scheduling the same goroutine \<open>n\<close>
  times in a row is \<open>solo n\<close> on the process, and \<open>call\<close> is the arrival of a request followed
  by sixteen steps of its goroutine.
\<close>

lemma run_append: "run (es @ es') s = run es' (run es s)"
  by (induction es arbitrary: s) simp_all

lemma run_Sched_solo:
  "goroutines s i = Some g \<Longrightarrow>
   run (replicate n (Sched i)) s =
     \<lparr>proc = snd (solo n (g, proc s)),
      goroutines = (goroutines s)(i \<mapsto> fst (solo n (g, proc s)))\<rparr>"
proof (induction n arbitrary: s g)
  case 0
  then show ?case by (simp add: fun_upd_idem)
next
  case (Suc n)
  obtain g' p' where e: "exec (g, proc s) = (g', p')"
    by (cases "exec (g, proc s)")
  let ?s' = "\<lparr>proc = p', goroutines = (goroutines s)(i \<mapsto> g')\<rparr>"
  have first: "run (replicate (Suc n) (Sched i)) s = run (replicate n (Sched i)) ?s'"
    using Suc.prems e by simp
  have rest: "run (replicate n (Sched i)) ?s' =
      \<lparr>proc = snd (solo n (g', p')),
       goroutines = (goroutines s)(i \<mapsto> fst (solo n (g', p')))\<rparr>"
    using Suc.IH [of ?s' g'] by (simp add: fun_eq_iff)
  show ?case
    unfolding first rest by (simp add: e fun_eq_iff)
qed

lemma run_call:
  "run (Arrive 0 h r # replicate 16 (Sched 0)) \<lparr>proc = p, goroutines = gs\<rparr> =
     \<lparr>proc = snd (call h r p), goroutines = gs(0 \<mapsto> fst (call h r p))\<rparr>"
  using run_Sched_solo [of "\<lparr>proc = p, goroutines = gs(0 \<mapsto> go 0 h r)\<rparr>" 0 "go 0 h r" 16]
  by (simp add: call_def)

text \<open>
  A goroutine that has returned does not move, so a handler that has finished after \<open>m\<close>
  steps is in the same state after any larger number of steps.
\<close>

lemma exec_finished: "finished g \<Longrightarrow> exec (g, p) = (g, p)"
  by (simp add: exec_def split: option.split)

lemma solo_finished: "finished g \<Longrightarrow> solo n (g, p) = (g, p)"
  by (induction n) (simp_all add: exec_finished)

lemma solo_add: "solo (m + k) gp = solo k (solo m gp)"
  by (induction m arbitrary: gp) simp_all

lemma solo_enough:
  assumes "solo m gp = (g', p')" and "finished g'" and "m \<le> n"
  shows "solo n gp = (g', p')"
proof -
  from \<open>m \<le> n\<close> obtain k where "n = m + k"
    by (auto simp add: le_iff_add)
  then show ?thesis
    using assms(1,2) by (simp add: solo_add solo_finished)
qed

lemma step_finished:
  assumes "goroutines s j = Some g" and "finished g"
  shows "step (Sched j) s = s"
  using assms by (simp add: exec_finished fun_upd_idem)

text \<open>
  When every goroutine but \<open>i\<close> has returned, whatever order \<open>js\<close> the scheduler picks
  goroutines in, the server ends where goroutine \<open>i\<close> run alone ends after as many steps as
  \<open>js\<close> gives it.
\<close>

lemma run_only:
  assumes "\<forall>j g'. j \<noteq> i \<longrightarrow> goroutines s j = Some g' \<longrightarrow> finished g'"
    and "goroutines s i = Some g"
  shows "run (map Sched js) s =
     \<lparr>proc = snd (solo (count_list js i) (g, proc s)),
      goroutines = (goroutines s)(i \<mapsto> fst (solo (count_list js i) (g, proc s)))\<rparr>"
  using assms
proof (induction js arbitrary: s g)
  case Nil
  then show ?case by (simp add: fun_upd_idem)
next
  case (Cons j js)
  show ?case
  proof (cases "j = i")
    case True
    obtain g' p' where e: "exec (g, proc s) = (g', p')"
      by (cases "exec (g, proc s)")
    let ?s' = "\<lparr>proc = p', goroutines = (goroutines s)(i \<mapsto> g')\<rparr>"
    have first: "run (map Sched (j # js)) s = run (map Sched js) ?s'"
      using True Cons.prems(2) e by simp
    have rest: "run (map Sched js) ?s' =
      \<lparr>proc = snd (solo (count_list js i) (g', p')),
       goroutines = (goroutines s)(i \<mapsto> fst (solo (count_list js i) (g', p')))\<rparr>"
      using Cons.IH [of ?s' g'] Cons.prems(1) by (simp add: fun_eq_iff)
    show ?thesis
      unfolding first rest using True by (simp add: e fun_eq_iff)
  next
    case False
    have "step (Sched j) s = s"
    proof (cases "goroutines s j")
      case None
      then show ?thesis by simp
    next
      case (Some h)
      with False Cons.prems(1) have "finished h" by blast
      with Some show ?thesis by (rule step_finished)
    qed
    then show ?thesis
      using False Cons.IH [OF Cons.prems] by simp
  qed
qed

lemma dev0_token0: "format_uuid (read16 (dev0 0)) = token0"
  by code_simp

lemma dev0_tokenA: "format_uuid (read16 (dev0 (Suc 0))) = tokenA"
  by code_simp

lemma dev0_tokenB: "format_uuid (read16 (dev0 2)) = tokenB"
  by code_simp

lemma dev0_tokenB_Suc: "format_uuid (read16 (dev0 (Suc (Suc 0)))) = tokenB"
  by code_simp

lemma dev0_tokenC_Suc: "format_uuid (read16 (dev0 (Suc (Suc (Suc 0))))) = tokenC"
  by code_simp

text \<open>The process \<open>P1\<close> is what the first \<^verbatim>\<open>PUT\<close> leaves of a new server.\<close>

lemma P1_reached: "snd (call handleSet put_k P0) = P1"
  by (simp add: call_defs stmt_defs uuid_def next_read_def P0_def NewServer_def put_k_def
      P1_def new_Entry_def unlocked_def dev0_tokenA)

text \<open>
  The only statement that empties the \<^verbatim>\<open>lockID\<close> of an allocated entry is line 148, the
  release branch of \<^verbatim>\<open>handleUpdate\<close>: every other assignment to it stores a token, and a
  token is never the empty string.
\<close>

lemma lockID_emptied_at_L148:
  assumes "a < nalloc p" and "lockID (heap p a) \<noteq> []"
    and "lockID (heap (snd (exec (g, p))) a) = []"
  shows "pc g = L148"
  using assms
  by (cases "pc g")
     (auto simp add: exec_def stmt_defs uuid_def format_uuid_nonempty
           split: if_splits option.splits sum.splits prod.splits)

text \<open>
  The map is written at line 173 of \<^verbatim>\<open>handleSet\<close> only: a key is in the map exactly when a
  set of that key has got that far.
\<close>

lemma storage_written_at_L173:
  assumes "storage (cache (snd (exec (g, p)))) k \<noteq> storage (cache p) k"
  shows "pc g = L173 \<and> Vars_key (req g) = k"
  using assms
  by (cases "pc g")
     (auto simp add: exec_def stmt_defs uuid_def
           split: if_splits option.splits sum.splits prod.splits)

text \<open>No statement frees an address: the heap only grows.\<close>

lemma nalloc_mono: "nalloc p \<le> nalloc (snd (exec (g, p)))"
  by (cases "pc g")
     (auto simp add: exec_def stmt_defs uuid_def
           split: if_splits option.splits sum.splits prod.splits)

text \<open>
  No statement of \<^verbatim>\<open>handleUpdate\<close> locks or unlocks the mutex of an entry: the handler
  holds no entry lock at any point.
\<close>

lemma update_takes_no_entry_lock:
  assumes "pc g \<in> set [L114, L117, L121, L131, L132, L133, L135, L139, L144, L146, L147, L148,
                      L151]"
  shows "elock (heap (snd (exec (g, p))) a) = elock (heap p a)"
  using assms
  by (cases "pc g")
     (auto simp add: exec_def stmt_defs
           split: if_splits option.splits sum.splits prod.splits)

text \<open>
  The statements of \<^verbatim>\<open>handleUpdate\<close> that write to the heap are lines 144, 147 and 148:
  all of them follow the token check of line 139.
\<close>

lemma update_writes_follow_check:
  assumes "pc g \<in> set [L114, L117, L121, L131, L132, L133, L135, L139, L146, L151]"
  shows "heap (snd (exec (g, p))) = heap p"
  using assms
  by (cases "pc g")
     (auto simp add: exec_def stmt_defs
           split: if_splits option.splits sum.splits prod.splits)

subsection \<open>Updates that are refused\<close>

text \<open>
  Claim C2. An update is a request served by \<^verbatim>\<open>handleUpdate\<close> whose body was read and
  that carries the \<^verbatim>\<open>release\<close> parameter. For every key present in the store and every
  presented token different from the entry's current \<^verbatim>\<open>lockID\<close>, the update fails with
  Unauthorized (401) and the process is left as it was: the value is not written, the
  \<^verbatim>\<open>lockID\<close> is not changed and the waiters of the entry's condition variable stay as they
  are. The handler runs in a live process whose cache is not held by a writer.
\<close>

theorem update_bad_token_unauthorized:
  assumes "exited p = None" and "\<not> w (clock (cache p))"
    and "ReadAll_Body r = Inr b" and "Query_release r = Some rs"
    and "storage (cache p) (Vars_key r) = Some a"
    and "lockID (heap p a) \<noteq> Vars_lock_id r"
  shows "case call handleUpdate r p of (g', p') \<Rightarrow>
     pc g' = Done \<and>
     res g' = Some \<lparr>status = StatusUnauthorized,
       body = ErrorJson ''Your lock id isn't consistent with the currently held lock''\<rparr> \<and>
     p' = p"
  using assms by (simp add: call_defs stmt_defs)

theorem update_bad_token_unauthorized_witness:
  "case call handleUpdate (post_k tokenB (Some [''true'']) (Inr ''x'')) P1 of (g', p') \<Rightarrow>
     pc g' = Done \<and>
     res g' = Some \<lparr>status = StatusUnauthorized,
       body = ErrorJson ''Your lock id isn't consistent with the currently held lock''\<rparr> \<and>
     p' = P1"
proof -
  have "lockID (heap P1 0) \<noteq> Vars_lock_id (post_k tokenB (Some [''true'']) (Inr ''x''))"
    by (simp add: P1_def post_k_def tokenA_def tokenB_def)
  moreover have "storage (cache P1) (Vars_key (post_k tokenB (Some [''true'']) (Inr ''x''))) = Some 0"
    by (simp add: P1_def post_k_def)
  moreover have "exited P1 = None" and "\<not> w (clock (cache P1))"
    by (simp_all add: P1_def unlocked_def)
  ultimately show ?thesis
    by (intro update_bad_token_unauthorized [where b = "''x''" and rs = "[''true'']"])
       (simp_all add: post_k_def)
qed

text \<open>
  Claim C8, as amended. The handler reads the body (lines 114 to 119) before it looks for
  the \<^verbatim>\<open>release\<close> parameter (lines 121 to 125). For every update request whose body is read
  without error and whose query string lacks the \<^verbatim>\<open>release\<close> parameter, the handler fails
  with BadRequest (400) after lines 114 and 121 and leaves the whole process, and so every
  entry, as it was.
\<close>

theorem update_missing_release_bad_request:
  assumes "exited p = None" and "ReadAll_Body r = Inr b" and "Query_release r = None"
  shows "case call handleUpdate r p of (g', p') \<Rightarrow>
     pc g' = Done \<and>
     res g' = Some \<lparr>status = StatusBadRequest,
       body = ErrorJson ''release is a required query parameter [ true || false ]''\<rparr> \<and>
     trace g' = [L114, L121] \<and>
     p' = p"
  using assms by (simp add: call_defs stmt_defs)

theorem update_missing_release_bad_request_witness:
  "case call handleUpdate (post_k tokenA None (Inr ''x'')) P1 of (g', p') \<Rightarrow>
     pc g' = Done \<and>
     res g' = Some \<lparr>status = StatusBadRequest,
       body = ErrorJson ''release is a required query parameter [ true || false ]''\<rparr> \<and>
     trace g' = [L114, L121] \<and>
     p' = P1"
  by (rule update_missing_release_bad_request [where b = "''x''"])
     (simp_all add: P1_def post_k_def)

text \<open>
  Without the proviso the statement fails: an update request that lacks \<^verbatim>\<open>release\<close> and
  whose body cannot be read is answered 500, not 400, at line 116, and the unlock of line
  117 then ends the process.
\<close>

theorem update_missing_release_unread_body:
  "Query_release (post_k tokenA None (Inl ''unexpected EOF'')) = None \<and>
   res (fst (call handleUpdate (post_k tokenA None (Inl ''unexpected EOF'')) P1)) =
     Some \<lparr>status = StatusInternalServerError,
       body = ErrorJson ''Unable to read the body of the set request''\<rparr> \<and>
   res (fst (call handleUpdate (post_k tokenA None (Inl ''unexpected EOF'')) P1)) \<noteq>
     Some \<lparr>status = StatusBadRequest,
       body = ErrorJson ''release is a required query parameter [ true || false ]''\<rparr> \<and>
   exited (snd (call handleUpdate (post_k tokenA None (Inl ''unexpected EOF'')) P1)) =
     Some ''sync: Unlock of unlocked RWMutex''"
  by (simp add: call_defs stmt_defs post_k_def P1_def unlocked_def StatusBadRequest_def
      StatusInternalServerError_def)

subsection \<open>Reservations\<close>

text \<open>
  Claim C5. A key on which \<^verbatim>\<open>set\<close> has never been called is a key the map does not hold.
  A reservation of such a key fails with NotFound (404) and leaves the process as it was,
  the map and the heap included. Moreover no statement of \<^verbatim>\<open>handleReservation\<close>, in
  whatever state it is executed, changes the map or allocates an entry.
\<close>

theorem reserve_absent_not_found:
  assumes "exited p = None" and "\<not> w (clock (cache p))"
    and "storage (cache p) (Vars_key r) = None"
  shows "(case call handleReservation r p of (g', p') \<Rightarrow>
     pc g' = Done \<and>
     res g' = Some \<lparr>status = StatusNotFound,
       body = ErrorJson ''Unable to claim lock on non-existent key''\<rparr> \<and>
     p' = p) \<and>
    (\<forall>g q. pc g \<in> set [L83, L84, L85, L92, L97, L98, L99, L99_sleep, L99_lock, L101, L102,
                         L103, L108] \<longrightarrow>
       storage (cache (snd (exec (g, q)))) = storage (cache q) \<and>
       nalloc (snd (exec (g, q))) = nalloc q)"
proof
  show "case call handleReservation r p of (g', p') \<Rightarrow>
     pc g' = Done \<and>
     res g' = Some \<lparr>status = StatusNotFound,
       body = ErrorJson ''Unable to claim lock on non-existent key''\<rparr> \<and>
     p' = p"
    using assms by (simp add: call_defs stmt_defs)
next
  show "\<forall>g q. pc g \<in> set [L83, L84, L85, L92, L97, L98, L99, L99_sleep, L99_lock, L101, L102,
                         L103, L108] \<longrightarrow>
       storage (cache (snd (exec (g, q)))) = storage (cache q) \<and>
       nalloc (snd (exec (g, q))) = nalloc q"
  proof (intro allI impI)
    fix g :: goroutine and q :: process
    assume "pc g \<in> set [L83, L84, L85, L92, L97, L98, L99, L99_sleep, L99_lock, L101, L102,
                         L103, L108]"
    then show "storage (cache (snd (exec (g, q)))) = storage (cache q) \<and>
       nalloc (snd (exec (g, q))) = nalloc q"
      by (cases "pc g")
         (auto simp add: exec_def stmt_defs uuid_def
               split: if_splits option.splits sum.splits prod.splits)
  qed
qed

theorem reserve_absent_not_found_witness:
  "(case call handleReservation reserve_j P1 of (g', p') \<Rightarrow>
     pc g' = Done \<and>
     res g' = Some \<lparr>status = StatusNotFound,
       body = ErrorJson ''Unable to claim lock on non-existent key''\<rparr> \<and>
     p' = P1) \<and>
   storage (cache (snd (exec (go 0 handleReservation reserve_j, P1)))) = storage (cache P1) \<and>
   nalloc (snd (exec (go 0 handleReservation reserve_j, P1))) = nalloc P1"
proof -
  have "exited P1 = None" and "\<not> w (clock (cache P1))"
    and "storage (cache P1) (Vars_key reserve_j) = None"
    by (simp_all add: P1_def unlocked_def reserve_j_def)
  from reserve_absent_not_found [OF this]
  show ?thesis by (simp add: go_def)
qed

text \<open>
  A reservation of a key that is locked ends asleep in \<^verbatim>\<open>cond.Wait()\<close>: it has joined the
  waiters, has given the entry's mutex back and has written no response.
\<close>

lemma reserve_locked_waits:
  assumes "exited p = None" and "\<not> w (clock (cache p))"
    and "storage (cache p) (Vars_key r) = Some a"
    and "\<not> Lock_blocks (elock (heap p a))" and "cond (heap p a) = Some ws"
    and "lockID (heap p a) \<noteq> []"
  shows "case call handleReservation r p of (g', p') \<Rightarrow>
     pc g' = L99_sleep \<and> blocked g' p' \<and> res g' = None \<and>
     p' = p\<lparr>heap := (heap p)(a := (heap p a)\<lparr>cond := Some (ws @ [0])\<rparr>)\<rparr>"
  using assms by (simp add: call_defs stmt_defs w_False_id)

subsection \<open>Updates that are accepted\<close>

text \<open>
  Claim C6. For every key locked under the token \<open>t\<close> that the request presents, an update
  with body \<open>v\<close> and \<^verbatim>\<open>release=false\<close> succeeds (204) and changes the process in one place
  only: the entry's value becomes \<open>v\<close>. The \<^verbatim>\<open>lockID\<close> stays \<open>t\<close> and the waiters of the
  condition variable are not woken.
\<close>

theorem update_retains_lock:
  assumes "exited p = None" and "\<not> w (clock (cache p))"
    and "ReadAll_Body r = Inr v" and "Query_release r = Some (''false'' # rest)"
    and "storage (cache p) (Vars_key r) = Some a"
    and "lockID (heap p a) = Vars_lock_id r"
  shows "case call handleUpdate r p of (g', p') \<Rightarrow>
     pc g' = Done \<and>
     res g' = Some \<lparr>status = StatusNoContent, body = NoBody\<rparr> \<and>
     p' = p\<lparr>heap := (heap p)(a := (heap p a)\<lparr>val := v\<rparr>)\<rparr> \<and>
     lockID (heap p' a) = Vars_lock_id r \<and>
     cond (heap p' a) = cond (heap p a) \<and>
     elock (heap p' a) = elock (heap p a)"
  using assms by (simp add: call_defs stmt_defs)

theorem update_retains_lock_witness:
  "case call handleUpdate (post_k tokenA (Some [''false'']) (Inr ''x'')) P1 of (g', p') \<Rightarrow>
     pc g' = Done \<and>
     res g' = Some \<lparr>status = StatusNoContent, body = NoBody\<rparr> \<and>
     val (heap p' 0) = ''x'' \<and>
     lockID (heap p' 0) = tokenA \<and>
     cond (heap p' 0) = Some []"
  using update_retains_lock [of P1 "post_k tokenA (Some [''false'']) (Inr ''x'')" "''x''" "[]" 0]
  by (simp add: P1_def post_k_def unlocked_def split: prod.splits)

text \<open>
  Claim C10. For an update with a present \<^verbatim>\<open>release\<close> parameter, a key of the store and the
  matching token, line 146 looks at the first value of the parameter only and compares it
  with the string \<^verbatim>\<open>true\<close>. Whenever that value is anything else (\<^verbatim>\<open>false\<close>, \<^verbatim>\<open>True\<close>, the
  empty string, or no value at all), whatever values follow it, the update succeeds with
  204 along the path that skips lines 147 and 148, stores the body as the value and keeps
  the lock. No statement checks the value against \<^verbatim>\<open>true\<close> and \<^verbatim>\<open>false\<close>.
\<close>

theorem update_release_first_value_only:
  assumes "exited p = None" and "\<not> w (clock (cache p))"
    and "ReadAll_Body r = Inr v" and "Query_release r = Some rs"
    and "rs = [] \<or> rs ! 0 \<noteq> ''true''"
    and "storage (cache p) (Vars_key r) = Some a"
    and "lockID (heap p a) = Vars_lock_id r"
  shows "case call handleUpdate r p of (g', p') \<Rightarrow>
     pc g' = Done \<and>
     res g' = Some \<lparr>status = StatusNoContent, body = NoBody\<rparr> \<and>
     trace g' = [L114, L121, L131, L132, L133, L135, L139, L144, L146, L151] \<and>
     p' = p\<lparr>heap := (heap p)(a := (heap p a)\<lparr>val := v\<rparr>)\<rparr>"
  using assms by (auto simp add: call_defs stmt_defs)

theorem update_release_first_value_only_witness:
  "case call handleUpdate (post_k tokenA (Some [''True'', ''true'']) (Inr ''x'')) P1 of
     (g', p') \<Rightarrow>
     pc g' = Done \<and>
     res g' = Some \<lparr>status = StatusNoContent, body = NoBody\<rparr> \<and>
     trace g' = [L114, L121, L131, L132, L133, L135, L139, L144, L146, L151] \<and>
     p' = P1\<lparr>heap := (heap P1)(0 := (heap P1 0)\<lparr>val := ''x''\<rparr>)\<rparr>"
  by (rule update_release_first_value_only [where rs = "[''True'', ''true'']"])
     (simp_all add: P1_def post_k_def unlocked_def)

text \<open>
  Claim C4, as amended. Take a key locked under a token \<open>t\<close> in a server that is idle: no
  other request is in flight, so no goroutine waits on the entry or stands inside a
  handler. An update that presents \<open>t\<close> with body \<open>v\<close> and \<^verbatim>\<open>release=true\<close> arrives and, whatever
  order the scheduler picks goroutines in, once it has been given its twelve steps it has
  succeeded (204) and the entry has value \<open>v\<close> and an empty \<^verbatim>\<open>lockID\<close>. A reservation of the
  key that arrives after that, with no other arrival, completes under any order of
  scheduling without passing through \<^verbatim>\<open>cond.Wait()\<close> (line 99 is not on its path): it stores
  a new token in the entry and answers 200 with that token and the value \<open>v\<close>. The process
  is alive, the cache and the entry's mutex are free, the condition variable exists, and
  \<^verbatim>\<open>/dev/urandom\<close> is open or can be opened.
\<close>

theorem release_then_reserve:
  assumes idle: "idle s"
    and live: "exited (proc s) = None" "\<not> w (clock (cache (proc s)))"
      "Random (proc s) \<noteq> None \<or> urandom_opens (proc s)"
    and key: "storage (cache (proc s)) k = Some a"
      "\<not> Lock_blocks (elock (heap (proc s) a))" "cond (heap (proc s) a) = Some ws"
      "lockID (heap (proc s) a) = t"
    and r1: "Vars_key r1 = k" "Vars_lock_id r1 = t" "ReadAll_Body r1 = Inr v"
      "Query_release r1 = Some (''true'' # rest)"
    and r2: "Vars_key r2 = k"
    and sched: "i1 \<noteq> i2" "12 \<le> count_list js1 i1" "10 \<le> count_list js2 i2"
    and s1: "s1 = run (Arrive i1 handleUpdate r1 # map Sched js1) s"
    and s2: "s2 = run (Arrive i2 handleReservation r2 # map Sched js2) s1"
    and u: "u = format_uuid (read16 (urandom (proc s) (next_read (proc s))))"
  shows "(\<exists>g1. goroutines s1 i1 = Some g1 \<and> pc g1 = Done \<and>
        res g1 = Some \<lparr>status = StatusNoContent, body = NoBody\<rparr>) \<and>
     lockID (heap (proc s1) a) = [] \<and>
     val (heap (proc s1) a) = v \<and>
     (\<exists>g2. goroutines s2 i2 = Some g2 \<and> pc g2 = Done \<and>
        res g2 = Some \<lparr>status = StatusOK, body = Json \<lparr>LockID = u, Value = v\<rparr>\<rparr> \<and>
        trace g2 = [L83, L84, L85, L92, L97, L98, L101, L102, L103, L108]) \<and>
     lockID (heap (proc s2) a) = u \<and> u \<noteq> [] \<and>
     val (heap (proc s2) a) = v"
proof -
  let ?p = "proc s"
  let ?p1 = "?p\<lparr>heap := (heap ?p)(a := (heap ?p a)\<lparr>val := v, cond := Some [], lockID := []\<rparr>)\<rparr>"
  let ?g1 = "(go i1 handleUpdate r1)\<lparr>pc := Done, body_v := v, release := ''true'' # rest,
         entry := Some a, ok := True,
         res := Some \<lparr>status = StatusNoContent, body = NoBody\<rparr>,
         trace := [L114, L121, L131, L132, L133, L135, L139, L144, L146, L147, L148, L151]\<rparr>"
  have "solo 12 (go i1 handleUpdate r1, ?p) = (?g1, ?p1)"
    using live key r1 by (simp add: go_def exec_def eval_nat_numeral stmt_defs)
  moreover have fin1: "finished ?g1"
    by (simp add: finished_def)
  ultimately have upd: "solo (count_list js1 i1) (go i1 handleUpdate r1, ?p) = (?g1, ?p1)"
    using sched(2) by (rule solo_enough)
  let ?sa = "step (Arrive i1 handleUpdate r1) s"
  have "\<forall>j g'. j \<noteq> i1 \<longrightarrow> goroutines ?sa j = Some g' \<longrightarrow> finished g'"
    using idle by (simp add: idle_def)
  moreover have "goroutines ?sa i1 = Some (go i1 handleUpdate r1)"
    by simp
  ultimately have "run (map Sched js1) ?sa =
     \<lparr>proc = snd (solo (count_list js1 i1) (go i1 handleUpdate r1, proc ?sa)),
      goroutines = (goroutines ?sa)(i1 \<mapsto>
        fst (solo (count_list js1 i1) (go i1 handleUpdate r1, proc ?sa)))\<rparr>"
    by (rule run_only)
  then have s1': "s1 = \<lparr>proc = ?p1, goroutines = (goroutines s)(i1 \<mapsto> ?g1)\<rparr>"
    using upd by (simp add: s1 fun_eq_iff)
  obtain g2 p2 where rsv10: "solo 10 (go i2 handleReservation r2, ?p1) = (g2, p2)"
    by (cases "solo 10 (go i2 handleReservation r2, ?p1)")
  have props: "pc g2 = Done \<and>
        res g2 = Some \<lparr>status = StatusOK, body = Json \<lparr>LockID = u, Value = v\<rparr>\<rparr> \<and>
        trace g2 = [L83, L84, L85, L92, L97, L98, L101, L102, L103, L108] \<and>
        lockID (heap p2 a) = u \<and> val (heap p2 a) = v"
    using rsv10 live key r2 u
    by (auto simp add: go_def exec_def eval_nat_numeral stmt_defs uuid_def next_read_def)
  then have fin2: "finished g2"
    by (simp add: finished_def)
  from rsv10 fin2 sched(3)
  have rsv: "solo (count_list js2 i2) (go i2 handleReservation r2, ?p1) = (g2, p2)"
    by (rule solo_enough)
  let ?sb = "step (Arrive i2 handleReservation r2) s1"
  have "\<forall>j g'. j \<noteq> i2 \<longrightarrow> goroutines ?sb j = Some g' \<longrightarrow> finished g'"
    using idle fin1 by (simp add: idle_def s1')
  moreover have "goroutines ?sb i2 = Some (go i2 handleReservation r2)"
    by simp
  ultimately have "run (map Sched js2) ?sb =
     \<lparr>proc = snd (solo (count_list js2 i2) (go i2 handleReservation r2, proc ?sb)),
      goroutines = (goroutines ?sb)(i2 \<mapsto>
        fst (solo (count_list js2 i2) (go i2 handleReservation r2, proc ?sb)))\<rparr>"
    by (rule run_only)
  then have s2': "s2 = \<lparr>proc = p2, goroutines = (goroutines s1)(i2 \<mapsto> g2)\<rparr>"
    using rsv by (simp add: s2 s1' fun_eq_iff)
  show ?thesis
    using props by (simp add: s1' s2' format_uuid_nonempty u)
qed

theorem release_then_reserve_witness:
  "idle quiet \<and>
   map_option res (goroutines
     (run (Arrive 1 handleUpdate (post_k tokenA (Some [''true'']) (Inr ''x''))
           # map Sched turns_update) quiet) 1) =
     Some (Some \<lparr>status = StatusNoContent, body = NoBody\<rparr>) \<and>
   lockID (heap (proc
     (run (Arrive 1 handleUpdate (post_k tokenA (Some [''true'']) (Inr ''x''))
           # map Sched turns_update) quiet)) 0) = [] \<and>
   map_option (\<lambda>g. (pc g, res g, trace g)) (goroutines
     (run (Arrive 2 handleReservation reserve_k # map Sched turns_reserve)
       (run (Arrive 1 handleUpdate (post_k tokenA (Some [''true'']) (Inr ''x''))
             # map Sched turns_update) quiet)) 2) =
     Some (Done, Some \<lparr>status = StatusOK, body = Json \<lparr>LockID = tokenB, Value = ''x''\<rparr>\<rparr>,
           [L83, L84, L85, L92, L97, L98, L101, L102, L103, L108]) \<and>
   lockID (heap (proc
     (run (Arrive 2 handleReservation reserve_k # map Sched turns_reserve)
       (run (Arrive 1 handleUpdate (post_k tokenA (Some [''true'']) (Inr ''x''))
             # map Sched turns_update) quiet))) 0) = tokenB"
proof -
  let ?r1 = "post_k tokenA (Some [''true'']) (Inr ''x'')"
  let ?s1 = "run (Arrive 1 handleUpdate ?r1 # map Sched turns_update) quiet"
  let ?s2 = "run (Arrive 2 handleReservation reserve_k # map Sched turns_reserve) ?s1"
  have idle: "idle quiet"
    by (simp add: idle_def quiet_def finished_def)
  have live: "exited (proc quiet) = None" "\<not> w (clock (cache (proc quiet)))"
      "Random (proc quiet) \<noteq> None \<or> urandom_opens (proc quiet)"
    by (simp_all add: quiet_def P1_def unlocked_def)
  have key: "storage (cache (proc quiet)) ''k'' = Some 0"
      "\<not> Lock_blocks (elock (heap (proc quiet) 0))" "cond (heap (proc quiet) 0) = Some []"
      "lockID (heap (proc quiet) 0) = tokenA"
    by (simp_all add: quiet_def P1_def unlocked_def Lock_blocks_def)
  have r1: "Vars_key ?r1 = ''k''" "Vars_lock_id ?r1 = tokenA" "ReadAll_Body ?r1 = Inr ''x''"
      "Query_release ?r1 = Some (''true'' # [])"
    by (simp_all add: post_k_def)
  have r2: "Vars_key reserve_k = ''k''"
    by (simp add: reserve_k_def)
  have sched: "(1::nat) \<noteq> 2" "12 \<le> count_list turns_update 1"
      "10 \<le> count_list turns_reserve 2"
    by (simp_all add: turns_update_def turns_reserve_def)
  have u: "tokenB = format_uuid (read16 (urandom (proc quiet) (next_read (proc quiet))))"
    by (simp add: quiet_def P1_def next_read_def dev0_tokenB)
  from release_then_reserve [OF idle live key r1 r2 sched refl refl u]
  have "(\<exists>g1. goroutines ?s1 1 = Some g1 \<and> pc g1 = Done \<and>
        res g1 = Some \<lparr>status = StatusNoContent, body = NoBody\<rparr>) \<and>
     lockID (heap (proc ?s1) 0) = [] \<and>
     val (heap (proc ?s1) 0) = ''x'' \<and>
     (\<exists>g2. goroutines ?s2 2 = Some g2 \<and> pc g2 = Done \<and>
        res g2 = Some \<lparr>status = StatusOK, body = Json \<lparr>LockID = tokenB, Value = ''x''\<rparr>\<rparr> \<and>
        trace g2 = [L83, L84, L85, L92, L97, L98, L101, L102, L103, L108]) \<and>
     lockID (heap (proc ?s2) 0) = tokenB \<and> tokenB \<noteq> [] \<and>
     val (heap (proc ?s2) 0) = ''x''" .
  with idle show ?thesis
    by (auto simp del: run.simps)
qed

text \<open>
  Without the proviso the statement fails, and by design: waiters race for a released
  lock. After \<open>waiter_prefix\<close> the update has succeeded (204) and the entry has value \<^verbatim>\<open>x\<close>
  and an empty \<^verbatim>\<open>lockID\<close>. The reservation that was asleep takes the lock under \<open>tokenB\<close>,
  and the reservation that arrives after the update has returned ends asleep in
  \<^verbatim>\<open>cond.Wait()\<close>, blocked and with no response.
\<close>

theorem reserve_after_release_waits:
  "map_option res (goroutines (run waiter_prefix boot) 2) =
     Some (Some \<lparr>status = StatusNoContent, body = NoBody\<rparr>) \<and>
   heap (proc (run waiter_prefix boot)) 0 =
     \<lparr>elock = unlocked, cond = Some [], val = ''x'', lockID = []\<rparr> \<and>
   map_option (\<lambda>g. (pc g, res g)) (goroutines (run waiter_race boot) 1) =
     Some (Done, Some \<lparr>status = StatusOK, body = Json \<lparr>LockID = tokenB, Value = ''x''\<rparr>\<rparr>) \<and>
   map_option (\<lambda>g. (pc g, res g, blocked g (proc (run waiter_race boot))))
       (goroutines (run waiter_race boot) 3) = Some (L99_sleep, None, True)"
  by (simp add: waiter_race_def waiter_prefix_def boot_def P0_def NewServer_def
      put_k_def reserve_k_def post_k_def exec_def go_def eval_nat_numeral stmt_defs uuid_def
      next_read_def new_Entry_def unlocked_def dev0_token0 dev0_tokenA dev0_tokenB_Suc
      tokenA_def tokenB_def)

subsection \<open>Set\<close>

text \<open>What \<^verbatim>\<open>handleSet\<close> does to a key the map does not hold, and to one that is free.\<close>

lemma set_absent:
  assumes "exited p = None" and "\<not> Lock_blocks (clock (cache p))"
    and "Random p \<noteq> None \<or> urandom_opens p"
    and "ReadAll_Body r = Inr b"
    and "storage (cache p) (Vars_key r) = None"
  shows "call handleSet r p =
     ((go 0 handleSet r)\<lparr>pc := Done, body_v := b, entry := Some (nalloc p), ok := False,
        data := Json \<lparr>LockID = format_uuid (read16 (urandom p (Suc (next_read p)))), Value = []\<rparr>,
        res := Some \<lparr>status = StatusOK,
          body = Json \<lparr>LockID = format_uuid (read16 (urandom p (Suc (next_read p)))),
                       Value = []\<rparr>\<rparr>,
        trace := [L159, L167, L168, L169, L170, L171, L172, L173, L175, L177, L180, L184, L185,
                  L187, L189, L194]\<rparr>,
      p\<lparr>cache := (cache p)\<lparr>storage := (storage (cache p))(Vars_key r \<mapsto> nalloc p)\<rparr>,
        heap := (heap p)(nalloc p := \<lparr>elock = unlocked, cond = Some [], val = b,
          lockID = format_uuid (read16 (urandom p (Suc (next_read p))))\<rparr>),
        nalloc := Suc (nalloc p),
        Random := Some (Suc (Suc (next_read p)))\<rparr>)"
  using assms
  by (simp add: call_defs stmt_defs uuid_def next_read_def new_Entry_def unlocked_def w_False_id)

lemma set_present:
  assumes "exited p = None" and "\<not> Lock_blocks (clock (cache p))"
    and "Random p \<noteq> None \<or> urandom_opens p"
    and "ReadAll_Body r = Inr b"
    and "storage (cache p) (Vars_key r) = Some a"
    and "\<not> Lock_blocks (elock (heap p a))"
    and "lockID (heap p a) = []"
  shows "call handleSet r p =
     ((go 0 handleSet r)\<lparr>pc := Done, body_v := b, entry := Some a, ok := True,
        data := Json \<lparr>LockID = format_uuid (read16 (urandom p (next_read p))), Value = []\<rparr>,
        res := Some \<lparr>status = StatusOK,
          body = Json \<lparr>LockID = format_uuid (read16 (urandom p (next_read p))), Value = []\<rparr>\<rparr>,
        trace := [L159, L167, L168, L169, L175, L177, L180, L184, L185, L187, L189, L194]\<rparr>,
      p\<lparr>heap := (heap p)(a := (heap p a)\<lparr>lockID := format_uuid (read16 (urandom p (next_read p))),
                                           val := b\<rparr>),
        Random := Some (Suc (next_read p))\<rparr>)"
  using assms
  by (simp add: call_defs stmt_defs uuid_def next_read_def w_False_id)

text \<open>
  A set during which no other goroutine takes a step answers 200, stores the body as the
  entry's value, and returns the token that is the entry's \<^verbatim>\<open>lockID\<close> when it returns. The
  token is the formatting of the bytes of the last read of \<^verbatim>\<open>/dev/urandom\<close>, a read made
  during this call. It is not the empty string, and from the state that such a set leaves
  the only statement whose execution empties the \<^verbatim>\<open>lockID\<close> is line 148, the release branch
  of \<^verbatim>\<open>handleUpdate\<close>.

  The first part is the call from its first statement, for a key that is absent, or
  present and free, so that the handler does not wait. The second part is the rest of
  a set, one that has waited included, from the point where it leaves the loop of line
  180: it holds the entry's mutex and the loop condition is false. What a set does when
  an update interleaves with it is shown in the last subsection.
\<close>

theorem set_stores_body_and_locks:
  assumes "exited p = None" and "\<not> Lock_blocks (clock (cache p))"
    and "Random p \<noteq> None \<or> urandom_opens p"
    and "ReadAll_Body r = Inr b"
    and "\<forall>a. storage (cache p) (Vars_key r) = Some a \<longrightarrow>
           a < nalloc p \<and> \<not> Lock_blocks (elock (heap p a)) \<and> lockID (heap p a) = []"
  shows "(case call handleSet r p of (g', p') \<Rightarrow>
     pc g' = Done \<and>
     (\<exists>a n. storage (cache p') (Vars_key r) = Some a \<and>
        val (heap p' a) = b \<and>
        Random p' = Some (Suc n) \<and> next_read p \<le> n \<and>
        lockID (heap p' a) = format_uuid (read16 (urandom p' n)) \<and>
        lockID (heap p' a) \<noteq> [] \<and>
        res g' = Some \<lparr>status = StatusOK,
          body = Json \<lparr>LockID = lockID (heap p' a), Value = []\<rparr>\<rparr> \<and>
        (\<forall>g. lockID (heap (snd (exec (g, p'))) a) = [] \<longrightarrow> pc g = L148))) \<and>
    (\<forall>g q a. exited q = None \<and> (Random q \<noteq> None \<or> urandom_opens q) \<and>
        pc g = L180 \<and> entry g = Some a \<and> w (elock (heap q a)) \<and>
        \<not> (ok g \<and> lockID (heap q a) \<noteq> []) \<longrightarrow>
        (case solo 6 (g, q) of (g', q') \<Rightarrow>
           pc g' = Done \<and>
           val (heap q' a) = body_v g \<and>
           Random q' = Some (Suc (next_read q)) \<and>
           lockID (heap q' a) = format_uuid (read16 (urandom q (next_read q))) \<and>
           lockID (heap q' a) \<noteq> [] \<and>
           res g' = Some \<lparr>status = StatusOK,
             body = Json \<lparr>LockID = lockID (heap q' a), Value = []\<rparr>\<rparr>))"
proof (rule conjI)
  show "case call handleSet r p of (g', p') \<Rightarrow>
     pc g' = Done \<and>
     (\<exists>a n. storage (cache p') (Vars_key r) = Some a \<and>
        val (heap p' a) = b \<and>
        Random p' = Some (Suc n) \<and> next_read p \<le> n \<and>
        lockID (heap p' a) = format_uuid (read16 (urandom p' n)) \<and>
        lockID (heap p' a) \<noteq> [] \<and>
        res g' = Some \<lparr>status = StatusOK,
          body = Json \<lparr>LockID = lockID (heap p' a), Value = []\<rparr>\<rparr> \<and>
        (\<forall>g. lockID (heap (snd (exec (g, p'))) a) = [] \<longrightarrow> pc g = L148))"
  proof (cases "storage (cache p) (Vars_key r)")
    case None
    let ?u = "format_uuid (read16 (urandom p (Suc (next_read p))))"
    let ?p' = "p\<lparr>cache := (cache p)\<lparr>storage := (storage (cache p))(Vars_key r \<mapsto> nalloc p)\<rparr>,
        heap := (heap p)(nalloc p := \<lparr>elock = unlocked, cond = Some [], val = b, lockID = ?u\<rparr>),
        nalloc := Suc (nalloc p),
        Random := Some (Suc (Suc (next_read p)))\<rparr>"
    have freed: "\<forall>g. lockID (heap (snd (exec (g, ?p'))) (nalloc p)) = [] \<longrightarrow> pc g = L148"
      by (intro allI impI, rule lockID_emptied_at_L148 [of "nalloc p" ?p'])
         (simp_all add: format_uuid_nonempty)
    show ?thesis
      unfolding set_absent [OF assms(1-4) None]
      using freed
      by (simp add: format_uuid_nonempty exI [of _ "Suc (next_read p)"])
  next
    case (Some a)
    let ?u = "format_uuid (read16 (urandom p (next_read p)))"
    let ?p' = "p\<lparr>heap := (heap p)(a := (heap p a)\<lparr>lockID := ?u, val := b\<rparr>),
        Random := Some (Suc (next_read p))\<rparr>"
    from Some assms(5) have a: "a < nalloc p" "\<not> Lock_blocks (elock (heap p a))"
      "lockID (heap p a) = []"
      by simp_all
    have freed: "\<forall>g. lockID (heap (snd (exec (g, ?p'))) a) = [] \<longrightarrow> pc g = L148"
      by (intro allI impI, rule lockID_emptied_at_L148 [of a ?p'])
         (simp_all add: format_uuid_nonempty a)
    show ?thesis
      unfolding set_present [OF assms(1-4) Some a(2,3)]
      using freed Some
      by (simp add: format_uuid_nonempty exI [of _ "next_read p"])
  qed
next
  show "\<forall>g q a. exited q = None \<and> (Random q \<noteq> None \<or> urandom_opens q) \<and>
        pc g = L180 \<and> entry g = Some a \<and> w (elock (heap q a)) \<and>
        \<not> (ok g \<and> lockID (heap q a) \<noteq> []) \<longrightarrow>
        (case solo 6 (g, q) of (g', q') \<Rightarrow>
           pc g' = Done \<and>
           val (heap q' a) = body_v g \<and>
           Random q' = Some (Suc (next_read q)) \<and>
           lockID (heap q' a) = format_uuid (read16 (urandom q (next_read q))) \<and>
           lockID (heap q' a) \<noteq> [] \<and>
           res g' = Some \<lparr>status = StatusOK,
             body = Json \<lparr>LockID = lockID (heap q' a), Value = []\<rparr>\<rparr>)"
    by (auto simp add: exec_def eval_nat_numeral stmt_defs uuid_def next_read_def
        format_uuid_nonempty)
qed

theorem set_stores_body_and_locks_witness:
  "case call handleSet put_k P0 of (g', p') \<Rightarrow>
     pc g' = Done \<and>
     storage (cache p') ''k'' = Some 0 \<and>
     val (heap p' 0) = ''a'' \<and>
     lockID (heap p' 0) = tokenA \<and>
     res g' = Some \<lparr>status = StatusOK, body = Json \<lparr>LockID = tokenA, Value = []\<rparr>\<rparr>"
proof -
  have "exited P0 = None" and "\<not> Lock_blocks (clock (cache P0))"
    and "Random P0 \<noteq> None \<or> urandom_opens P0"
    and "ReadAll_Body put_k = Inr ''a''"
    and "\<forall>a. storage (cache P0) (Vars_key put_k) = Some a \<longrightarrow>
           a < nalloc P0 \<and> \<not> Lock_blocks (elock (heap P0 a)) \<and> lockID (heap P0 a) = []"
    by (simp_all add: P0_def NewServer_def unlocked_def Lock_blocks_def put_k_def)
  from set_stores_body_and_locks [OF this, THEN conjunct1]
  have "case call handleSet put_k P0 of (g', p') \<Rightarrow>
     pc g' = Done \<and>
     (\<exists>a n. storage (cache p') (Vars_key put_k) = Some a \<and>
        val (heap p' a) = ''a'' \<and>
        Random p' = Some (Suc n) \<and> next_read P0 \<le> n \<and>
        lockID (heap p' a) = format_uuid (read16 (urandom p' n)) \<and>
        lockID (heap p' a) \<noteq> [] \<and>
        res g' = Some \<lparr>status = StatusOK,
          body = Json \<lparr>LockID = lockID (heap p' a), Value = []\<rparr>\<rparr> \<and>
        (\<forall>g. lockID (heap (snd (exec (g, p'))) a) = [] \<longrightarrow> pc g = L148))" .
  moreover have "snd (call handleSet put_k P0) = P1"
    by (rule P1_reached)
  ultimately show ?thesis
    by (auto simp add: put_k_def P1_def split: prod.splits)
qed

text \<open>
  Claim C7. When set is called on a key the map does not hold, it allocates the entry,
  stores a first token \<open>u1\<close> in its \<^verbatim>\<open>lockID\<close> (line 171) and only then inserts it in the
  map (line 173), still under the cache's write lock: the entry is created locked, under
  a token acquired by its creator. The loop of line 180 finds \<^verbatim>\<open>ok\<close> false and is left at
  once, with the entry still locked under \<open>u1\<close>: line 181 (\<^verbatim>\<open>cond.Wait()\<close>) is not on the path.
  Line 184 then issues a second token \<open>u2\<close>, from the next read of \<^verbatim>\<open>/dev/urandom\<close>; it is
  the token that the entry holds at the end and that the response returns.
\<close>

theorem set_absent_key_created_locked:
  assumes "exited p = None" and "\<not> Lock_blocks (clock (cache p))"
    and "Random p \<noteq> None \<or> urandom_opens p"
    and "ReadAll_Body r = Inr b"
    and "storage (cache p) (Vars_key r) = None"
    and "u1 = format_uuid (read16 (urandom p (next_read p)))"
    and "u2 = format_uuid (read16 (urandom p (Suc (next_read p))))"
  shows "(case solo 8 (go 0 handleSet r, p) of (g1, p1) \<Rightarrow>
       pc g1 = L175 \<and> w (clock (cache p1)) \<and>
       storage (cache p1) (Vars_key r) = Some (nalloc p) \<and>
       lockID (heap p1 (nalloc p)) = u1 \<and> u1 \<noteq> []) \<and>
    (case solo 11 (go 0 handleSet r, p) of (g2, p2) \<Rightarrow>
       pc g2 = L184 \<and>
       trace g2 = [L159, L167, L168, L169, L170, L171, L172, L173, L175, L177, L180] \<and>
       w (elock (heap p2 (nalloc p))) \<and>
       lockID (heap p2 (nalloc p)) = u1) \<and>
    (case call handleSet r p of (g', p') \<Rightarrow>
       pc g' = Done \<and>
       L181 \<notin> set (trace g') \<and>
       storage (cache p') (Vars_key r) = Some (nalloc p) \<and>
       lockID (heap p' (nalloc p)) = u2 \<and>
       val (heap p' (nalloc p)) = b \<and>
       res g' = Some \<lparr>status = StatusOK, body = Json \<lparr>LockID = u2, Value = []\<rparr>\<rparr> \<and>
       Random p' = Some (Suc (Suc (next_read p))))"
proof (intro conjI)
  show "case solo 8 (go 0 handleSet r, p) of (g1, p1) \<Rightarrow>
       pc g1 = L175 \<and> w (clock (cache p1)) \<and>
       storage (cache p1) (Vars_key r) = Some (nalloc p) \<and>
       lockID (heap p1 (nalloc p)) = u1 \<and> u1 \<noteq> []"
    using assms
    by (simp add: go_def exec_def eval_nat_numeral stmt_defs uuid_def next_read_def
        format_uuid_nonempty)
next
  show "case solo 11 (go 0 handleSet r, p) of (g2, p2) \<Rightarrow>
       pc g2 = L184 \<and>
       trace g2 = [L159, L167, L168, L169, L170, L171, L172, L173, L175, L177, L180] \<and>
       w (elock (heap p2 (nalloc p))) \<and>
       lockID (heap p2 (nalloc p)) = u1"
    using assms
    by (simp add: go_def exec_def eval_nat_numeral stmt_defs uuid_def next_read_def
        new_Entry_def unlocked_def)
next
  show "case call handleSet r p of (g', p') \<Rightarrow>
       pc g' = Done \<and>
       L181 \<notin> set (trace g') \<and>
       storage (cache p') (Vars_key r) = Some (nalloc p) \<and>
       lockID (heap p' (nalloc p)) = u2 \<and>
       val (heap p' (nalloc p)) = b \<and>
       res g' = Some \<lparr>status = StatusOK, body = Json \<lparr>LockID = u2, Value = []\<rparr>\<rparr> \<and>
       Random p' = Some (Suc (Suc (next_read p)))"
    unfolding set_absent [OF assms(1-5)]
    using assms(7) by simp
qed

theorem set_absent_key_created_locked_witness:
  "(case solo 8 (go 0 handleSet put_k, P0) of (g1, p1) \<Rightarrow>
       pc g1 = L175 \<and> w (clock (cache p1)) \<and>
       storage (cache p1) ''k'' = Some 0 \<and>
       lockID (heap p1 0) = token0 \<and> token0 \<noteq> []) \<and>
    (case solo 11 (go 0 handleSet put_k, P0) of (g2, p2) \<Rightarrow>
       pc g2 = L184 \<and>
       trace g2 = [L159, L167, L168, L169, L170, L171, L172, L173, L175, L177, L180] \<and>
       w (elock (heap p2 0)) \<and>
       lockID (heap p2 0) = token0) \<and>
    (case call handleSet put_k P0 of (g', p') \<Rightarrow>
       pc g' = Done \<and>
       L181 \<notin> set (trace g') \<and>
       storage (cache p') ''k'' = Some 0 \<and>
       lockID (heap p' 0) = tokenA \<and>
       val (heap p' 0) = ''a'' \<and>
       res g' = Some \<lparr>status = StatusOK, body = Json \<lparr>LockID = tokenA, Value = []\<rparr>\<rparr> \<and>
       Random p' = Some 2)"
proof -
  have "exited P0 = None" and "\<not> Lock_blocks (clock (cache P0))"
    and "Random P0 \<noteq> None \<or> urandom_opens P0"
    and "ReadAll_Body put_k = Inr ''a''"
    and "storage (cache P0) (Vars_key put_k) = None"
    and "token0 = format_uuid (read16 (urandom P0 (next_read P0)))"
    and "tokenA = format_uuid (read16 (urandom P0 (Suc (next_read P0))))"
    by (simp_all add: P0_def NewServer_def unlocked_def Lock_blocks_def put_k_def next_read_def
        dev0_token0 dev0_tokenA)
  from set_absent_key_created_locked [OF this]
  show ?thesis
    by (simp add: P0_def NewServer_def put_k_def next_read_def numeral_2_eq_2)
qed

subsection \<open>The body-read error path\<close>

text \<open>
  Claim C9. When \<^verbatim>\<open>ioutil.ReadAll\<close> fails, \<^verbatim>\<open>handleUpdate\<close> and \<^verbatim>\<open>handleSet\<close> answer 500 and
  then execute \<^verbatim>\<open>self.cache.Unlock()\<close> (lines 117 and 162), and nothing else: neither has
  executed \<^verbatim>\<open>self.cache.Lock()\<close>, which \<^verbatim>\<open>handleUpdate\<close> never calls and \<^verbatim>\<open>handleSet\<close> calls
  at line 167, after the body read. So the unlock has no matching lock. When no writer
  holds the cache, it is the fatal error of unlocking an unlocked mutex and the process
  exits; when another goroutine holds the write lock, that lock is released.
\<close>

theorem body_read_error_unlocks_cache:
  assumes "exited p = None" and "ReadAll_Body r = Inl e"
  shows "(case call handleUpdate r p of (g', p') \<Rightarrow>
       res g' = Some \<lparr>status = StatusInternalServerError,
         body = ErrorJson ''Unable to read the body of the set request''\<rparr> \<and>
       trace g' = [L114, L117] \<and>
       p' = (if w (clock (cache p)) then set_clock ((clock (cache p))\<lparr>w := False\<rparr>) p
             else p\<lparr>exited := Some ''sync: Unlock of unlocked RWMutex''\<rparr>)) \<and>
    (case call handleSet r p of (g', p') \<Rightarrow>
       res g' = Some \<lparr>status = StatusInternalServerError,
         body = ErrorJson ''Unable to read the body of the set request''\<rparr> \<and>
       trace g' = [L159, L162] \<and>
       p' = (if w (clock (cache p)) then set_clock ((clock (cache p))\<lparr>w := False\<rparr>) p
             else p\<lparr>exited := Some ''sync: Unlock of unlocked RWMutex''\<rparr>))"
  using assms by (simp add: call_defs stmt_defs)

theorem body_read_error_unlocks_cache_witness:
  "(case call handleUpdate (post_k tokenA (Some [''true'']) (Inl ''unexpected EOF'')) P1 of
      (g', p') \<Rightarrow>
       res g' = Some \<lparr>status = StatusInternalServerError,
         body = ErrorJson ''Unable to read the body of the set request''\<rparr> \<and>
       trace g' = [L114, L117] \<and>
       p' = P1\<lparr>exited := Some ''sync: Unlock of unlocked RWMutex''\<rparr>) \<and>
    (case call handleSet (post_k tokenA (Some [''true'']) (Inl ''unexpected EOF'')) P1 of
      (g', p') \<Rightarrow>
       res g' = Some \<lparr>status = StatusInternalServerError,
         body = ErrorJson ''Unable to read the body of the set request''\<rparr> \<and>
       trace g' = [L159, L162] \<and>
       p' = P1\<lparr>exited := Some ''sync: Unlock of unlocked RWMutex''\<rparr>)"
proof -
  have "exited P1 = None"
    and "ReadAll_Body (post_k tokenA (Some [''true'']) (Inl ''unexpected EOF''))
         = Inl ''unexpected EOF''"
    and nw: "\<not> w (clock (cache P1))"
    by (simp_all add: P1_def post_k_def unlocked_def)
  from body_read_error_unlocks_cache [OF this(1,2)] nw
  show ?thesis by simp
qed

subsection \<open>Mutual exclusion\<close>

text \<open>
  Claim C1. \<^verbatim>\<open>handleReservation\<close> and \<^verbatim>\<open>handleSet\<close> test and assign \<^verbatim>\<open>lockID\<close> between
  \<^verbatim>\<open>entry.Lock()\<close> and \<^verbatim>\<open>entry.Unlock()\<close>; \<^verbatim>\<open>handleUpdate\<close> takes no entry lock at all: it
  reads \<^verbatim>\<open>lockID\<close> at line 139 and writes \<^verbatim>\<open>value\<close> and \<^verbatim>\<open>lockID\<close> at lines 144 and 148 with the
  mutex free. The schedule \<open>race\<close> shows what follows. After \<open>race_prefix\<close> the first update
  has been accepted (204) and has released the key, the reservation has been answered
  with \<open>tokenB\<close> and value \<^verbatim>\<open>x\<close>, and the entry is locked under \<open>tokenB\<close> with its mutex free,
  while the second update, which presented \<open>tokenA\<close>, stands at line 144, past its token
  check. Its next step overwrites the value under the reserver's lock, and at the end of
  \<open>race\<close> it too has been accepted (204), and the entry is unlocked with value \<^verbatim>\<open>y\<close>
  although the holder of \<open>tokenB\<close> has released nothing. A second reservation is then
  answered at once with \<open>tokenC\<close>: two callers hold a token of the key, and neither has
  released.
\<close>

theorem update_race:
  "let s1 = run race_prefix boot;
       s2 = run (race_prefix @ [Sched 2]) boot;
       s3 = run race boot;
       s4 = run race_reserved_twice boot
   in map_option res (goroutines s1 1) = Some (Some \<lparr>status = StatusNoContent, body = NoBody\<rparr>) \<and>
      map_option res (goroutines s1 3) =
        Some (Some \<lparr>status = StatusOK, body = Json \<lparr>LockID = tokenB, Value = ''x''\<rparr>\<rparr>) \<and>
      map_option pc (goroutines s1 2) = Some L144 \<and>
      map_option (Vars_lock_id \<circ> req) (goroutines s1 2) = Some tokenA \<and>
      heap (proc s1) 0 = \<lparr>elock = unlocked, cond = Some [], val = ''x'', lockID = tokenB\<rparr> \<and>
      heap (proc s2) 0 = \<lparr>elock = unlocked, cond = Some [], val = ''y'', lockID = tokenB\<rparr> \<and>
      map_option res (goroutines s3 2) = Some (Some \<lparr>status = StatusNoContent, body = NoBody\<rparr>) \<and>
      heap (proc s3) 0 = \<lparr>elock = unlocked, cond = Some [], val = ''y'', lockID = []\<rparr> \<and>
      map_option res (goroutines s4 3) =
        Some (Some \<lparr>status = StatusOK, body = Json \<lparr>LockID = tokenB, Value = ''x''\<rparr>\<rparr>) \<and>
      map_option res (goroutines s4 4) =
        Some (Some \<lparr>status = StatusOK, body = Json \<lparr>LockID = tokenC, Value = ''y''\<rparr>\<rparr>)"
  by (simp add: race_reserved_twice_def race_def race_prefix_def boot_def P0_def NewServer_def
      put_k_def reserve_k_def post_k_def exec_def go_def eval_nat_numeral stmt_defs uuid_def
      next_read_def new_Entry_def unlocked_def dev0_token0 dev0_tokenA dev0_tokenB_Suc
      dev0_tokenC_Suc tokenA_def tokenB_def tokenC_def)

text \<open>
  Claim C3. A completed set should leave the entry with the body as its value and locked
  under the token it returns. \<^verbatim>\<open>handleSet\<close> assigns both between \<^verbatim>\<open>entry.Lock()\<close> and
  \<^verbatim>\<open>entry.Unlock()\<close>, but \<^verbatim>\<open>handleUpdate\<close> writes them with no entry lock, after a token check
  that may be stale, and \<^verbatim>\<open>handleSet\<close> reads \<^verbatim>\<open>entry.lockID\<close> again for its response at line
  189, after the unlock of line 187. In \<open>set_race_late\<close> the set of body \<^verbatim>\<open>b\<close> completes with
  200 and \<open>tokenB\<close>, while the entry it leaves has value \<^verbatim>\<open>y\<close> and an empty \<^verbatim>\<open>lockID\<close>: the
  key is not locked and the token returned is not the entry's. In \<open>set_race_early\<close> the
  set completes with 200 and an empty token, and leaves the same entry.
\<close>

theorem set_meets_stale_update:
  "map_option (\<lambda>g. (pc g, res g)) (goroutines (run set_race_late boot) 3) =
     Some (Done, Some \<lparr>status = StatusOK, body = Json \<lparr>LockID = tokenB, Value = []\<rparr>\<rparr>) \<and>
   heap (proc (run set_race_late boot)) 0 =
     \<lparr>elock = unlocked, cond = Some [], val = ''y'', lockID = []\<rparr> \<and>
   map_option (\<lambda>g. (pc g, res g)) (goroutines (run set_race_early boot) 3) =
     Some (Done, Some \<lparr>status = StatusOK, body = Json \<lparr>LockID = [], Value = []\<rparr>\<rparr>) \<and>
   heap (proc (run set_race_early boot)) 0 =
     \<lparr>elock = unlocked, cond = Some [], val = ''y'', lockID = []\<rparr>"
  by (simp add: set_race_late_def set_race_early_def set_race_prefix_def boot_def P0_def
      NewServer_def put_k_def put_kb_def post_k_def exec_def go_def eval_nat_numeral stmt_defs
      uuid_def next_read_def new_Entry_def unlocked_def dev0_token0 dev0_tokenA
      dev0_tokenB_Suc tokenA_def tokenB_def)

end
